theory Spec2Isabelle
  imports Complex_Main
begin

section \<open>The option container of inicpp (src/src/option.h)\<close>

subsection \<open>Kinds, value cells and errors\<close>

text \<open>
  Modelled from the spec: the enumeration \<open>option_type\<close> is declared in types.h, which
  is not among the sources. The spec fixes its members: exactly the five kinds boolean,
  signed integer, unsigned integer, floating point and string. The constructor names
  follow \<open>option_type::string_e\<close>, the one member option.h mentions.
\<close>

datatype option_type = boolean_e | signed_e | unsigned_e | float_e | string_e

text \<open>
  A value cell is an \<open>option_holder\<close> whose dynamic type is \<open>option_value<ValueType>\<close>
  for one of the five supported value types. The cell is the tagged payload: the
  constructor is the dynamic type, its argument the member \<open>value_\<close>. The same tagged
  payload stands for a C++ argument of static type \<open>ValueType\<close> handed to a member
  template. The integer and floating point types are declared in types.h; they are left
  as the type parameters \<open>'s\<close>, \<open>'u\<close> and \<open>'f\<close>.
\<close>

datatype ('s, 'u, 'f) option_holder =
    boolean_v bool
  | signed_v 's
  | unsigned_v 'u
  | float_v 'f
  | string_v string

text \<open>
  Modelled from the spec: \<open>get_enum_type<ValueType>()\<close> is defined in types.h, which is
  not among the sources. By the spec it names the kind of each of the five supported
  value types. Its template argument is read off the tagged payload.
\<close>

fun get_enum_type :: "('s, 'u, 'f) option_holder \<Rightarrow> option_type" where
  "get_enum_type (boolean_v b) = boolean_e"
| "get_enum_type (signed_v i) = signed_e"
| "get_enum_type (unsigned_v n) = unsigned_e"
| "get_enum_type (float_v x) = float_e"
| "get_enum_type (string_v s) = string_e"

text \<open>
  The two exceptions of exception.h with what they carry (an index, a message), and the
  undefined behaviour of calling a member through a null pointer, which
  \<open>remove_from_list\<close> does not guard against.
\<close>

datatype error =
    not_found_exception nat
  | bad_cast_exception string
  | null_dereference

definition cast_message :: string where
  "cast_message = ''Cannot cast to requested type''"

text \<open>
  \<open>dynamic_cast<option_value<K> *>(&*cell)\<close>: the cell itself when its dynamic type is
  \<open>option_value<K>\<close>, the null pointer (\<open>None\<close>) otherwise.
\<close>

definition dynamic_cast ::
  "option_type \<Rightarrow> ('s, 'u, 'f) option_holder \<Rightarrow> ('s, 'u, 'f) option_holder option" where
  "dynamic_cast K cell = (if get_enum_type cell = K then Some cell else None)"

text \<open>
  \<open>ptr->get() == value\<close> at one value type. On the floating point type \<open>==\<close> is the
  comparison of that type, which need not be identity, so it is the parameter \<open>feq\<close>.
  The last equation is never reached by the code: both sides have the same static type.
\<close>

fun value_eq ::
  "('f \<Rightarrow> 'f \<Rightarrow> bool) \<Rightarrow> ('s, 'u, 'f) option_holder \<Rightarrow> ('s, 'u, 'f) option_holder \<Rightarrow> bool" where
  "value_eq feq (boolean_v a) (boolean_v b) = (a = b)"
| "value_eq feq (signed_v a) (signed_v b) = (a = b)"
| "value_eq feq (unsigned_v a) (unsigned_v b) = (a = b)"
| "value_eq feq (float_v a) (float_v b) = feq a b"
| "value_eq feq (string_v a) (string_v b) = (a = b)"
| "value_eq feq _ _ = False"

subsection \<open>The option and its state\<close>

text \<open>
  The members \<open>name_\<close>, \<open>type_\<close> and \<open>values_\<close> of class \<open>option\<close>. The member
  \<open>option_schema_\<close> is read and written by none of the member templates below and is
  left out. A member that mutates the option returns its outcome together with the
  option as the call leaves it, also when it throws.
\<close>

record ('s, 'u, 'f) option_rec =
  name_of :: string
  type_of :: option_type
  values_of :: "('s, 'u, 'f) option_holder list"

type_synonym ('s, 'u, 'f) outcome = "(error + unit) \<times> ('s, 'u, 'f) option_rec"

text \<open>The data model's invariant: every cell's kind is the type tag, or there is no cell.\<close>

definition homogeneous :: "('s, 'u, 'f) option_rec \<Rightarrow> bool" where
  "homogeneous opt =
     (values_of opt = [] \<or> list_all (\<lambda>cell. get_enum_type cell = type_of opt) (values_of opt))"

subsection \<open>Reading: get and get_list\<close>

definition get ::
  "option_type \<Rightarrow> ('s, 'u, 'f) option_rec \<Rightarrow> error + ('s, 'u, 'f) option_holder" where
  "get K opt =
     (if values_of opt = [] then Inl (not_found_exception 0)
      else case dynamic_cast K (values_of opt ! 0) of
             None \<Rightarrow> Inl (bad_cast_exception cast_message)
           | Some ptr \<Rightarrow> Inr ptr)"

fun get_list_loop ::
  "option_type \<Rightarrow> ('s, 'u, 'f) option_holder list \<Rightarrow> ('s, 'u, 'f) option_holder list
     \<Rightarrow> error + ('s, 'u, 'f) option_holder list" where
  "get_list_loop K [] results = Inr results"
| "get_list_loop K (cell # rest) results =
     (case dynamic_cast K cell of
        None \<Rightarrow> Inl (bad_cast_exception cast_message)
      | Some ptr \<Rightarrow> get_list_loop K rest (results @ [ptr]))"

definition get_list ::
  "option_type \<Rightarrow> ('s, 'u, 'f) option_rec \<Rightarrow> error + ('s, 'u, 'f) option_holder list" where
  "get_list K opt =
     (if values_of opt = [] then Inl (not_found_exception 0)
      else get_list_loop K (values_of opt) [])"

subsection \<open>Writing: add_to_list, set_list, remove_from_list\<close>

definition add_to_list ::
  "('s, 'u, 'f) option_holder \<Rightarrow> ('s, 'u, 'f) option_rec \<Rightarrow> ('s, 'u, 'f) outcome" where
  "add_to_list v opt =
     (if get_enum_type v \<noteq> type_of opt then (Inl (bad_cast_exception cast_message), opt)
      else (Inr (), opt\<lparr>values_of := values_of opt @ [v]\<rparr>))"

text \<open>The overload \<open>add_to_list(value, position)\<close>; \<open>insert\<close> at \<open>begin() + position\<close>.\<close>

definition add_to_list_at ::
  "('s, 'u, 'f) option_holder \<Rightarrow> nat \<Rightarrow> ('s, 'u, 'f) option_rec \<Rightarrow> ('s, 'u, 'f) outcome" where
  "add_to_list_at v position opt =
     (if get_enum_type v \<noteq> type_of opt then (Inl (bad_cast_exception cast_message), opt)
      else if position > length (values_of opt) then (Inl (not_found_exception position), opt)
      else (Inr (),
            opt\<lparr>values_of := take position (values_of opt) @ v # drop position (values_of opt)\<rparr>))"

text \<open>
  The loop of \<open>set_list\<close>: one \<open>add_to_list(item)\<close> per element, in order; an exception
  leaves the loop with the option as it is then.
\<close>

fun set_list_loop ::
  "('s, 'u, 'f) option_holder list \<Rightarrow> ('s, 'u, 'f) option_rec \<Rightarrow> ('s, 'u, 'f) outcome" where
  "set_list_loop [] opt = (Inr (), opt)"
| "set_list_loop (item # rest) opt =
     (case add_to_list item opt of
        (Inl e, opt') \<Rightarrow> (Inl e, opt')
      | (Inr u, opt') \<Rightarrow> set_list_loop rest opt')"

text \<open>
  \<open>set_list<K>(list)\<close>. A \<open>std::vector<K>\<close> is a list all of whose elements have kind
  \<open>K\<close>; the theorems about \<open>set_list\<close> say so where they need it.
\<close>

definition set_list ::
  "option_type \<Rightarrow> ('s, 'u, 'f) option_holder list \<Rightarrow> ('s, 'u, 'f) option_rec
     \<Rightarrow> ('s, 'u, 'f) outcome" where
  "set_list K list opt = set_list_loop list ((opt\<lparr>values_of := []\<rparr>)\<lparr>type_of := K\<rparr>)"

text \<open>
  The loop of \<open>remove_from_list\<close>: \<open>before\<close> holds the cells the iterator has passed,
  the list argument the cells from the iterator on. Each cell is downcast and
  dereferenced unchecked; \<open>erase\<close> and \<open>break\<close> at the first equal one.
\<close>

fun remove_from_list_loop ::
  "('f \<Rightarrow> 'f \<Rightarrow> bool) \<Rightarrow> ('s, 'u, 'f) option_holder \<Rightarrow> ('s, 'u, 'f) option_holder list
     \<Rightarrow> ('s, 'u, 'f) option_holder list \<Rightarrow> error + ('s, 'u, 'f) option_holder list" where
  "remove_from_list_loop feq v before [] = Inr before"
| "remove_from_list_loop feq v before (cell # rest) =
     (case dynamic_cast (get_enum_type v) cell of
        None \<Rightarrow> Inl null_dereference
      | Some ptr \<Rightarrow>
          if value_eq feq ptr v then Inr (before @ rest)
          else remove_from_list_loop feq v (before @ [cell]) rest)"

definition remove_from_list ::
  "('f \<Rightarrow> 'f \<Rightarrow> bool) \<Rightarrow> ('s, 'u, 'f) option_holder \<Rightarrow> ('s, 'u, 'f) option_rec
     \<Rightarrow> ('s, 'u, 'f) outcome" where
  "remove_from_list feq v opt =
     (if get_enum_type v \<noteq> type_of opt then (Inl (bad_cast_exception cast_message), opt)
      else case remove_from_list_loop feq v [] (values_of opt) of
             Inl e \<Rightarrow> (Inl e, opt)
           | Inr cells \<Rightarrow> (Inr (), opt\<lparr>values_of := cells\<rparr>))"

text \<open>
  Modelled from the spec: \<open>remove_from_list_pos\<close> is declared in option.h and defined
  in a file that is not among the sources. By the spec it removes the element at
  \<open>position\<close> and fails with NotFound, carrying the position, if \<open>position \<ge> size\<close>.
\<close>

definition remove_from_list_pos ::
  "nat \<Rightarrow> ('s, 'u, 'f) option_rec \<Rightarrow> ('s, 'u, 'f) outcome" where
  "remove_from_list_pos position opt =
     (if position \<ge> length (values_of opt) then (Inl (not_found_exception position), opt)
      else (Inr (),
            opt\<lparr>values_of := take position (values_of opt) @ drop (Suc position) (values_of opt)\<rparr>))"



subsection \<open>set_list in the words of the specification\<close>






subsection \<open>Example options\<close>

definition ports :: "(int, nat, real) option_rec" where
  "ports = \<lparr>name_of = ''ports'', type_of = string_e, values_of = [string_v ''80'', string_v ''443'']\<rparr>"

definition no_ports :: "(int, nat, real) option_rec" where
  "no_ports = \<lparr>name_of = ''ports'', type_of = string_e, values_of = []\<rparr>"

definition repeated_ports :: "(int, nat, real) option_rec" where
  "repeated_ports = \<lparr>name_of = ''ports'', type_of = string_e,
     values_of = [string_v ''80'', string_v ''443'', string_v ''80'', string_v ''443'']\<rparr>"

section \<open>Auxiliary facts about the loops\<close>

lemma set_list_loop_typed:
  "\<forall>v\<in>set list. get_enum_type v = type_of opt \<Longrightarrow>
     set_list_loop list opt = (Inr (), opt\<lparr>values_of := values_of opt @ list\<rparr>)"
  by (induction list arbitrary: opt) (simp_all add: add_to_list_def)


lemma set_list_loop_name_of: "name_of (snd (set_list_loop list opt)) = name_of opt"
  by (induction list arbitrary: opt) (simp_all add: add_to_list_def)

lemma homogeneous_iff: "homogeneous opt \<longleftrightarrow> (\<forall>cell\<in>set (values_of opt). get_enum_type cell = type_of opt)"
  by (auto simp: homogeneous_def list_all_iff)

lemma set_list_loop_homogeneous:
  "homogeneous opt \<Longrightarrow> homogeneous (snd (set_list_loop list opt))"
  by (induction list arbitrary: opt) (simp_all add: add_to_list_def homogeneous_iff)

lemma get_list_loop_typed:
  "\<forall>cell\<in>set cells. get_enum_type cell = K \<Longrightarrow>
     get_list_loop K cells results = Inr (results @ cells)"
  by (induction cells arbitrary: results) (simp_all add: dynamic_cast_def)

lemma get_list_loop_mismatch:
  "\<exists>cell\<in>set cells. get_enum_type cell \<noteq> K \<Longrightarrow>
     get_list_loop K cells results = Inl (bad_cast_exception cast_message)"
  by (induction cells arbitrary: results) (auto simp: dynamic_cast_def)

lemma get_list_loop_Inr:
  "get_list_loop K cells results = Inr rs \<Longrightarrow>
     rs = results @ cells \<and> (\<forall>cell\<in>set cells. get_enum_type cell = K)"
proof (induction cells arbitrary: results)
  case Nil
  then show ?case by simp
next
  case (Cons cell rest)
  from Cons.prems have k: "get_enum_type cell = K"
    by (simp add: dynamic_cast_def split: if_splits)
  with Cons.prems have "get_list_loop K rest (results @ [cell]) = Inr rs"
    by (simp add: dynamic_cast_def)
  from Cons.IH [OF this] k show ?case by simp
qed

lemma remove_loop_none:
  "\<forall>cell\<in>set cells. get_enum_type cell = get_enum_type v \<and> \<not> value_eq feq cell v \<Longrightarrow>
     remove_from_list_loop feq v before cells = Inr (before @ cells)"
  by (induction cells arbitrary: before) (simp_all add: dynamic_cast_def)

lemma remove_loop_first:
  "i < length cells \<Longrightarrow> value_eq feq (cells ! i) v \<Longrightarrow>
   \<forall>j<i. \<not> value_eq feq (cells ! j) v \<Longrightarrow>
   \<forall>j\<le>i. get_enum_type (cells ! j) = get_enum_type v \<Longrightarrow>
     remove_from_list_loop feq v before cells = Inr (before @ take i cells @ drop (Suc i) cells)"
proof (induction cells arbitrary: before i)
  case Nil
  then show ?case by simp
next
  case (Cons cell rest)
  show ?case
  proof (cases i)
    case 0
    with Cons.prems show ?thesis by (simp add: dynamic_cast_def)
  next
    case (Suc k)
    from Cons.prems Suc have k: "k < length rest" "value_eq feq (rest ! k) v" by simp_all
    from Cons.prems(3) Suc have nk: "\<forall>j<k. \<not> value_eq feq (rest ! j) v" by auto
    from Cons.prems(4) Suc have tk: "\<forall>j\<le>k. get_enum_type (rest ! j) = get_enum_type v" by auto
    from Cons.prems(3) Suc have n0: "\<not> value_eq feq cell v" by auto
    from Cons.prems(4) have t0: "get_enum_type cell = get_enum_type v" by auto
    from Cons.IH [OF k nk tk, of "before @ [cell]"] n0 t0 Suc
    show ?thesis by (simp add: dynamic_cast_def)
  qed
qed

lemma remove_loop_total:
  "\<forall>cell\<in>set cells. get_enum_type cell = get_enum_type v \<Longrightarrow>
     \<exists>kept. remove_from_list_loop feq v before cells = Inr kept \<and> set kept \<subseteq> set before \<union> set cells"
proof (induction cells arbitrary: before)
  case Nil
  then show ?case by simp
next
  case (Cons cell rest)
  from Cons.prems have k: "get_enum_type cell = get_enum_type v"
    and r: "\<forall>c\<in>set rest. get_enum_type c = get_enum_type v" by simp_all
  show ?case
  proof (cases "value_eq feq cell v")
    case True
    with k show ?thesis by (auto simp: dynamic_cast_def)
  next
    case False
    from Cons.IH [OF r, of "before @ [cell]"] obtain kept
      where "remove_from_list_loop feq v (before @ [cell]) rest = Inr kept"
        and "set kept \<subseteq> set (before @ [cell]) \<union> set rest" by blast
    with False k show ?thesis by (auto simp: dynamic_cast_def)
  qed
qed

lemma remove_loop_error:
  "remove_from_list_loop feq v before cells = Inl e \<Longrightarrow> e = null_dereference"
  by (induction cells arbitrary: before) (auto simp: dynamic_cast_def split: if_splits)





lemma remove_from_list_homogeneous:
  assumes "homogeneous opt"
  shows "homogeneous (snd (remove_from_list feq v opt))"
proof (cases "get_enum_type v = type_of opt")
  case False
  with assms show ?thesis by (simp add: remove_from_list_def)
next
  case True
  with assms have "\<forall>cell\<in>set (values_of opt). get_enum_type cell = get_enum_type v"
    by (simp add: homogeneous_iff)
  from remove_loop_total [OF this, of feq "[]"] obtain kept
    where k: "remove_from_list_loop feq v [] (values_of opt) = Inr kept"
      and s: "set kept \<subseteq> set (values_of opt)" by auto
  from assms s have "homogeneous (opt\<lparr>values_of := kept\<rparr>)"
    by (auto simp: homogeneous_iff)
  with True k show ?thesis by (simp add: remove_from_list_def)
qed

lemma add_to_list_at_homogeneous:
  "homogeneous opt \<Longrightarrow> homogeneous (snd (add_to_list_at v p opt))"
  by (auto simp: add_to_list_at_def homogeneous_iff dest: in_set_takeD in_set_dropD)

lemma remove_from_list_pos_homogeneous:
  "homogeneous opt \<Longrightarrow> homogeneous (snd (remove_from_list_pos p opt))"
  by (auto simp: remove_from_list_pos_def homogeneous_iff dest: in_set_takeD in_set_dropD)

section \<open>Properties\<close>

text \<open>
  C3. On an option whose value sequence is empty, \<open>get<K>()\<close> and \<open>get_list<K>()\<close> both
  fail with NotFound for every requested kind \<open>K\<close>, and the exception carries the
  index 0.
\<close>

theorem empty_access_not_found:
  assumes "values_of opt = []"
  shows "get K opt = Inl (not_found_exception 0) \<and> get_list K opt = Inl (not_found_exception 0)"
  using assms by (simp add: get_def get_list_def)

theorem empty_access_not_found_witness:
  "values_of no_ports = [] \<and> get signed_e no_ports = Inl (not_found_exception 0)
     \<and> get_list signed_e no_ports = Inl (not_found_exception 0)"
  using empty_access_not_found [of no_ports signed_e] by (simp add: no_ports_def)

text \<open>
  C1, as amended. For a list whose elements are all of kind \<open>K\<close>, \<open>set_list<K>(list)\<close>
  followed by \<open>get_list<K>()\<close> returns the list itself, in its order, when the list is not
  empty; after \<open>set_list\<close> of the empty list \<open>get_list\<close> fails with NotFound carrying 0.
\<close>

theorem set_list_get_list_round_trip:
  assumes "\<forall>v\<in>set list. get_enum_type v = K"
  shows "get_list K (snd (set_list K list opt)) =
           (if list = [] then Inl (not_found_exception 0) else Inr list)"
  using assms by (simp add: set_list_def set_list_loop_typed get_list_def get_list_loop_typed)

theorem set_list_get_list_round_trip_witness:
  "list_all (\<lambda>v. get_enum_type v = string_e) [string_v ''8080'', string_v ''80''] \<and>
   get_list string_e (snd (set_list string_e [string_v ''8080'', string_v ''80''] ports)) =
     Inr [string_v ''8080'', string_v ''80'']"
  using set_list_get_list_round_trip [of "[string_v ''8080'', string_v ''80'']" string_e ports]
  by simp

text \<open>
  C1 as stated fails at the empty list: \<open>set_list\<close> leaves no value, and \<open>get_list\<close>
  throws instead of returning the empty list.
\<close>

theorem empty_list_round_trip_counterexample:
  "get_list string_e (snd (set_list string_e [] ports)) = Inl (not_found_exception 0) \<and>
   get_list string_e (snd (set_list string_e [] ports)) \<noteq> Inr []"
  by (simp add: set_list_def get_list_def)

text \<open>
  C2. On an option that satisfies the invariant, has type tag \<open>K\<close> and at least one
  value, and for a requested kind \<open>K'\<close> other than \<open>K\<close>: \<open>get<K'>()\<close> and
  \<open>get_list<K'>()\<close> fail with BadCast, and both overloads of \<open>add_to_list\<close> fail with
  BadCast on a value of kind \<open>K'\<close> and leave the option as it was. Whatever \<open>get<K'>()\<close>
  and \<open>get_list<K'>()\<close> return on any option has kind \<open>K'\<close>.
\<close>

theorem type_mismatch_bad_cast:
  assumes "homogeneous opt" and "type_of opt = K" and "K' \<noteq> K" and "values_of opt \<noteq> []"
  shows "get K' opt = Inl (bad_cast_exception cast_message) \<and>
         get_list K' opt = Inl (bad_cast_exception cast_message) \<and>
         (\<forall>v. get_enum_type v = K' \<longrightarrow>
            add_to_list v opt = (Inl (bad_cast_exception cast_message), opt) \<and>
            (\<forall>p. add_to_list_at v p opt = (Inl (bad_cast_exception cast_message), opt))) \<and>
         (\<forall>any r. get K' any = Inr r \<longrightarrow> get_enum_type r = K') \<and>
         (\<forall>any rs. get_list K' any = Inr rs \<longrightarrow> (\<forall>r\<in>set rs. get_enum_type r = K'))"
proof -
  from assms obtain cell rest where vs: "values_of opt = cell # rest"
    by (cases "values_of opt") simp_all
  from assms(1,2) vs have kind: "get_enum_type cell = K"
    by (simp add: homogeneous_iff)
  from vs kind assms(3) have g: "get K' opt = Inl (bad_cast_exception cast_message)"
    by (auto simp: get_def dynamic_cast_def)
  from vs kind assms(3) have "\<exists>c\<in>set (values_of opt). get_enum_type c \<noteq> K'"
    by auto
  then have gl: "get_list K' opt = Inl (bad_cast_exception cast_message)"
    using assms(4) by (simp add: get_list_def get_list_loop_mismatch)
  have a: "\<forall>v. get_enum_type v = K' \<longrightarrow>
            add_to_list v opt = (Inl (bad_cast_exception cast_message), opt) \<and>
            (\<forall>p. add_to_list_at v p opt = (Inl (bad_cast_exception cast_message), opt))"
    using assms(2,3) by (simp add: add_to_list_def add_to_list_at_def)
  have r1: "\<forall>any r. get K' any = Inr r \<longrightarrow> get_enum_type r = K'"
    by (auto simp: get_def dynamic_cast_def split: if_splits)
  have r2: "\<forall>any rs. get_list K' any = Inr rs \<longrightarrow> (\<forall>r\<in>set rs. get_enum_type r = K')"
    by (auto simp: get_list_def split: if_splits dest: get_list_loop_Inr)
  from g gl a r1 r2 show ?thesis by blast
qed

theorem type_mismatch_bad_cast_witness:
  "homogeneous ports \<and> type_of ports = string_e \<and> signed_e \<noteq> string_e \<and> values_of ports \<noteq> [] \<and>
   get signed_e ports = Inl (bad_cast_exception cast_message) \<and>
   get_list signed_e ports = Inl (bad_cast_exception cast_message) \<and>
   add_to_list (signed_v 8080) ports = (Inl (bad_cast_exception cast_message), ports) \<and>
   add_to_list_at (signed_v 8080) 1 ports = (Inl (bad_cast_exception cast_message), ports)"
proof -
  have h: "homogeneous ports" "type_of ports = string_e" "signed_e \<noteq> string_e"
    "values_of ports \<noteq> []"
    by (simp_all add: ports_def homogeneous_def)
  from type_mismatch_bad_cast [OF h] h show ?thesis by auto
qed

text \<open>
  C4. If every stored cell's kind equals the type tag, or the value sequence is empty,
  before a call of \<open>set_list\<close>, of either overload of \<open>add_to_list\<close>, of
  \<open>remove_from_list\<close> or of \<open>remove_from_list_pos\<close>, then the same holds of the option
  as the call leaves it, whether it returns or throws.
\<close>

theorem invariant_preserved:
  assumes "homogeneous opt"
  shows "homogeneous (snd (set_list K list opt)) \<and>
         homogeneous (snd (add_to_list v opt)) \<and>
         homogeneous (snd (add_to_list_at v p opt)) \<and>
         homogeneous (snd (remove_from_list feq v opt)) \<and>
         homogeneous (snd (remove_from_list_pos p opt))"
proof -
  have "homogeneous ((opt\<lparr>values_of := []\<rparr>)\<lparr>type_of := K\<rparr>)"
    by (simp add: homogeneous_def)
  then have 1: "homogeneous (snd (set_list K list opt))"
    unfolding set_list_def by (rule set_list_loop_homogeneous)
  from assms have 2: "homogeneous (snd (add_to_list v opt))"
    by (simp add: add_to_list_def homogeneous_iff)
  from assms have 3: "homogeneous (snd (add_to_list_at v p opt))"
    by (rule add_to_list_at_homogeneous)
  from assms have 4: "homogeneous (snd (remove_from_list feq v opt))"
    by (rule remove_from_list_homogeneous)
  from assms have 5: "homogeneous (snd (remove_from_list_pos p opt))"
    by (rule remove_from_list_pos_homogeneous)
  from 1 2 3 4 5 show ?thesis by simp
qed

theorem invariant_preserved_witness:
  "homogeneous ports \<and>
   homogeneous (snd (set_list boolean_e [boolean_v True, boolean_v False] ports)) \<and>
   homogeneous (snd (add_to_list (string_v ''8080'') ports)) \<and>
   homogeneous (snd (add_to_list_at (string_v ''8080'') 1 ports)) \<and>
   homogeneous (snd (remove_from_list (=) (string_v ''8080'') ports)) \<and>
   homogeneous (snd (remove_from_list_pos 1 ports))"
proof -
  have h: "homogeneous ports" by (simp add: ports_def homogeneous_def)
  from invariant_preserved [OF h, of boolean_e "[boolean_v True, boolean_v False]"
      "string_v ''8080''" 1 "(=)"] h
  show ?thesis by simp
qed



text \<open>
  C6. \<open>add_to_list(value, p)\<close> fails with BadCast when the value's kind differs from the
  type tag. With matching kind it fails with NotFound carrying \<open>p\<close> when \<open>p\<close> exceeds the
  size, appends the value at the end when \<open>p\<close> is the size, and for \<open>p\<close> below the size
  puts the value at index \<open>p\<close>, keeps the elements before \<open>p\<close> and moves every later
  element up by one.
\<close>

theorem positional_add_to_list:
  "(get_enum_type v \<noteq> type_of opt \<longrightarrow>
      add_to_list_at v p opt = (Inl (bad_cast_exception cast_message), opt)) \<and>
   (get_enum_type v = type_of opt \<and> p > length (values_of opt) \<longrightarrow>
      add_to_list_at v p opt = (Inl (not_found_exception p), opt)) \<and>
   (get_enum_type v = type_of opt \<and> p = length (values_of opt) \<longrightarrow>
      add_to_list_at v p opt = (Inr (), opt\<lparr>values_of := values_of opt @ [v]\<rparr>)) \<and>
   (get_enum_type v = type_of opt \<and> p < length (values_of opt) \<longrightarrow>
      fst (add_to_list_at v p opt) = Inr () \<and>
      name_of (snd (add_to_list_at v p opt)) = name_of opt \<and>
      type_of (snd (add_to_list_at v p opt)) = type_of opt \<and>
      length (values_of (snd (add_to_list_at v p opt))) = Suc (length (values_of opt)) \<and>
      (\<forall>i<p. values_of (snd (add_to_list_at v p opt)) ! i = values_of opt ! i) \<and>
      values_of (snd (add_to_list_at v p opt)) ! p = v \<and>
      (\<forall>i. p \<le> i \<and> i < length (values_of opt) \<longrightarrow>
         values_of (snd (add_to_list_at v p opt)) ! Suc i = values_of opt ! i))"
proof -
  have 1: "get_enum_type v \<noteq> type_of opt \<longrightarrow>
      add_to_list_at v p opt = (Inl (bad_cast_exception cast_message), opt)"
    by (simp add: add_to_list_at_def)
  have 2: "get_enum_type v = type_of opt \<and> p > length (values_of opt) \<longrightarrow>
      add_to_list_at v p opt = (Inl (not_found_exception p), opt)"
    by (simp add: add_to_list_at_def)
  have 3: "get_enum_type v = type_of opt \<and> p = length (values_of opt) \<longrightarrow>
      add_to_list_at v p opt = (Inr (), opt\<lparr>values_of := values_of opt @ [v]\<rparr>)"
    by (simp add: add_to_list_at_def)
  have 4: "fst (add_to_list_at v p opt) = Inr () \<and>
      name_of (snd (add_to_list_at v p opt)) = name_of opt \<and>
      type_of (snd (add_to_list_at v p opt)) = type_of opt \<and>
      length (values_of (snd (add_to_list_at v p opt))) = Suc (length (values_of opt)) \<and>
      (\<forall>i<p. values_of (snd (add_to_list_at v p opt)) ! i = values_of opt ! i) \<and>
      values_of (snd (add_to_list_at v p opt)) ! p = v \<and>
      (\<forall>i. p \<le> i \<and> i < length (values_of opt) \<longrightarrow>
         values_of (snd (add_to_list_at v p opt)) ! Suc i = values_of opt ! i)"
    if k: "get_enum_type v = type_of opt" and lt: "p < length (values_of opt)"
  proof -
    let ?vs = "values_of opt"
    from k lt have r: "add_to_list_at v p opt =
        (Inr (), opt\<lparr>values_of := take p ?vs @ v # drop p ?vs\<rparr>)"
      by (simp add: add_to_list_at_def)
    from lt have a: "\<forall>i<p. (take p ?vs @ v # drop p ?vs) ! i = ?vs ! i"
      by (simp add: nth_append)
    from lt have b: "(take p ?vs @ v # drop p ?vs) ! p = v"
      by (simp add: nth_append)
    have c: "(take p ?vs @ v # drop p ?vs) ! Suc i = ?vs ! i" if "p \<le> i" "i < length ?vs" for i
    proof -
      from that lt have "Suc i - p = Suc (i - p)" by arith
      with that lt show ?thesis by (simp add: nth_append min_def)
    qed
    from r a b c lt show ?thesis by simp
  qed
  from 1 2 3 4 show ?thesis by blast
qed

theorem positional_add_to_list_witness:
  "add_to_list_at (signed_v 8080) 5 ports = (Inl (bad_cast_exception cast_message), ports) \<and>
   add_to_list_at (string_v ''8080'') 3 ports = (Inl (not_found_exception 3), ports) \<and>
   add_to_list_at (string_v ''8080'') 2 ports =
     (Inr (), ports\<lparr>values_of := values_of ports @ [string_v ''8080'']\<rparr>) \<and>
   fst (add_to_list_at (string_v ''8080'') 1 ports) = Inr () \<and>
   values_of (snd (add_to_list_at (string_v ''8080'') 1 ports)) ! 0 = string_v ''80'' \<and>
   values_of (snd (add_to_list_at (string_v ''8080'') 1 ports)) ! 1 = string_v ''8080'' \<and>
   values_of (snd (add_to_list_at (string_v ''8080'') 1 ports)) ! 2 = string_v ''443''"
proof -
  have k: "get_enum_type (signed_v 8080 :: (int, nat, real) option_holder) \<noteq> type_of ports"
    "get_enum_type (string_v ''8080'' :: (int, nat, real) option_holder) = type_of ports"
    "length (values_of ports) = 2" "values_of ports ! 0 = string_v ''80''"
    "values_of ports ! 1 = string_v ''443''"
    by (simp_all add: ports_def)
  from positional_add_to_list [of "signed_v 8080" ports 5] k
  have 1: "add_to_list_at (signed_v 8080) 5 ports = (Inl (bad_cast_exception cast_message), ports)"
    by simp
  from positional_add_to_list [of "string_v ''8080''" ports 3] k
  have 2: "add_to_list_at (string_v ''8080'') 3 ports = (Inl (not_found_exception 3), ports)"
    by simp
  from positional_add_to_list [of "string_v ''8080''" ports 2] k
  have 3: "add_to_list_at (string_v ''8080'') 2 ports =
     (Inr (), ports\<lparr>values_of := values_of ports @ [string_v ''8080'']\<rparr>)"
    by simp
  from positional_add_to_list [of "string_v ''8080''" ports 1] k
  have 4: "fst (add_to_list_at (string_v ''8080'') 1 ports) = Inr () \<and>
   values_of (snd (add_to_list_at (string_v ''8080'') 1 ports)) ! 0 = string_v ''80'' \<and>
   values_of (snd (add_to_list_at (string_v ''8080'') 1 ports)) ! 1 = string_v ''8080'' \<and>
   values_of (snd (add_to_list_at (string_v ''8080'') 1 ports)) ! 2 = string_v ''443''"
    by (simp add: numeral_2_eq_2)
  from 1 2 3 4 show ?thesis by simp
qed

text \<open>
  C7. \<open>remove_from_list(value)\<close> fails with BadCast and leaves the option as it was when
  the value's kind differs from the type tag. On an option that satisfies the invariant
  and with matching kind, it leaves the option unchanged when no element equals the
  value, and otherwise removes the element at the least index \<open>i\<close> whose value equals the
  given one, and nothing else.
\<close>

theorem remove_from_list_first_equal:
  "(get_enum_type v \<noteq> type_of opt \<longrightarrow>
      remove_from_list feq v opt = (Inl (bad_cast_exception cast_message), opt)) \<and>
   (homogeneous opt \<and> get_enum_type v = type_of opt \<and>
    (\<forall>cell\<in>set (values_of opt). \<not> value_eq feq cell v) \<longrightarrow>
      remove_from_list feq v opt = (Inr (), opt)) \<and>
   (homogeneous opt \<and> get_enum_type v = type_of opt \<and> i < length (values_of opt) \<and>
    value_eq feq (values_of opt ! i) v \<and> (\<forall>j<i. \<not> value_eq feq (values_of opt ! j) v) \<longrightarrow>
      remove_from_list feq v opt =
        (Inr (), opt\<lparr>values_of := take i (values_of opt) @ drop (Suc i) (values_of opt)\<rparr>))"
proof -
  have 1: "get_enum_type v \<noteq> type_of opt \<longrightarrow>
      remove_from_list feq v opt = (Inl (bad_cast_exception cast_message), opt)"
    by (simp add: remove_from_list_def)
  have 2: "remove_from_list feq v opt = (Inr (), opt)"
    if "homogeneous opt" "get_enum_type v = type_of opt"
      "\<forall>cell\<in>set (values_of opt). \<not> value_eq feq cell v"
  proof -
    from that have "\<forall>cell\<in>set (values_of opt).
        get_enum_type cell = get_enum_type v \<and> \<not> value_eq feq cell v"
      by (simp add: homogeneous_iff)
    from remove_loop_none [OF this, of "[]"] that(2) show ?thesis
      by (simp add: remove_from_list_def)
  qed
  have 3: "remove_from_list feq v opt =
        (Inr (), opt\<lparr>values_of := take i (values_of opt) @ drop (Suc i) (values_of opt)\<rparr>)"
    if "homogeneous opt" "get_enum_type v = type_of opt" "i < length (values_of opt)"
      "value_eq feq (values_of opt ! i) v" "\<forall>j<i. \<not> value_eq feq (values_of opt ! j) v"
  proof -
    from that(1,2,3) have "\<forall>j\<le>i. get_enum_type (values_of opt ! j) = get_enum_type v"
      by (simp add: homogeneous_iff)
    from remove_loop_first [OF that(3) that(4) that(5) this, of "[]"] that(2) show ?thesis
      by (simp add: remove_from_list_def)
  qed
  from 1 2 3 show ?thesis by blast
qed

theorem remove_from_list_first_equal_witness:
  "remove_from_list (=) (signed_v 443) repeated_ports =
     (Inl (bad_cast_exception cast_message), repeated_ports) \<and>
   remove_from_list (=) (string_v ''8080'') repeated_ports = (Inr (), repeated_ports) \<and>
   remove_from_list (=) (string_v ''443'') repeated_ports =
     (Inr (), repeated_ports\<lparr>values_of := [string_v ''80'', string_v ''80'', string_v ''443'']\<rparr>)"
proof -
  have h: "homogeneous repeated_ports"
    by (simp add: repeated_ports_def homogeneous_def)
  have k: "get_enum_type (signed_v 443 :: (int, nat, real) option_holder) \<noteq> type_of repeated_ports"
    "get_enum_type (string_v ''8080'' :: (int, nat, real) option_holder) = type_of repeated_ports"
    "get_enum_type (string_v ''443'' :: (int, nat, real) option_holder) = type_of repeated_ports"
    by (simp_all add: repeated_ports_def)
  from remove_from_list_first_equal [of "signed_v 443" repeated_ports "(=)" 0] k
  have 1: "remove_from_list (=) (signed_v 443) repeated_ports =
     (Inl (bad_cast_exception cast_message), repeated_ports)"
    by simp
  have "\<forall>cell\<in>set (values_of repeated_ports). \<not> value_eq (=) cell (string_v ''8080'')"
    by (simp add: repeated_ports_def)
  with remove_from_list_first_equal [of "string_v ''8080''" repeated_ports "(=)" 0] h k
  have 2: "remove_from_list (=) (string_v ''8080'') repeated_ports = (Inr (), repeated_ports)"
    by simp
  have "1 < length (values_of repeated_ports)"
    "value_eq (=) (values_of repeated_ports ! 1) (string_v ''443'')"
    "\<forall>j<1. \<not> value_eq (=) (values_of repeated_ports ! j) (string_v ''443'')"
    "take 1 (values_of repeated_ports) @ drop (Suc 1) (values_of repeated_ports) =
       [string_v ''80'', string_v ''80'', string_v ''443'']"
    by (simp_all add: repeated_ports_def)
  with remove_from_list_first_equal [of "string_v ''443''" repeated_ports "(=)" 1] h k
  have 3: "remove_from_list (=) (string_v ''443'') repeated_ports =
     (Inr (), repeated_ports\<lparr>values_of := [string_v ''80'', string_v ''80'', string_v ''443'']\<rparr>)"
    by simp
  from 1 2 3 show ?thesis by simp
qed

text \<open>
  C8. When \<open>add_to_list\<close> (either overload) or \<open>remove_from_list\<close> fails with BadCast
  or NotFound, the option after the call, name, type tag and value sequence, is the
  option before the call. \<open>get_list\<close> is a const member: it is a function of the option
  that returns either an error or the whole list, and has no option to hand back.
  \<open>set_list\<close> is outside this statement.
\<close>

theorem failure_leaves_state:
  assumes "e = bad_cast_exception m \<or> e = not_found_exception n"
  shows "(fst (add_to_list v opt) = Inl e \<longrightarrow> snd (add_to_list v opt) = opt) \<and>
         (fst (add_to_list_at v p opt) = Inl e \<longrightarrow> snd (add_to_list_at v p opt) = opt) \<and>
         (fst (remove_from_list feq v opt) = Inl e \<longrightarrow> snd (remove_from_list feq v opt) = opt)"
proof -
  have 1: "fst (add_to_list v opt) = Inl e \<longrightarrow> snd (add_to_list v opt) = opt"
    by (simp add: add_to_list_def)
  have 2: "fst (add_to_list_at v p opt) = Inl e \<longrightarrow> snd (add_to_list_at v p opt) = opt"
    by (simp add: add_to_list_at_def)
  have 3: "fst (remove_from_list feq v opt) = Inl e \<longrightarrow> snd (remove_from_list feq v opt) = opt"
    by (simp add: remove_from_list_def split: sum.splits)
  from 1 2 3 show ?thesis by simp
qed

theorem failure_leaves_state_witness:
  "fst (add_to_list (signed_v 8080) ports) = Inl (bad_cast_exception cast_message) \<and>
   snd (add_to_list (signed_v 8080) ports) = ports \<and>
   fst (add_to_list_at (string_v ''8080'') 3 ports) = Inl (not_found_exception 3) \<and>
   snd (add_to_list_at (string_v ''8080'') 3 ports) = ports \<and>
   fst (remove_from_list (=) (boolean_v True) ports) = Inl (bad_cast_exception cast_message) \<and>
   snd (remove_from_list (=) (boolean_v True) ports) = ports"
proof -
  have f: "fst (add_to_list (signed_v 8080) ports) = Inl (bad_cast_exception cast_message)"
    "fst (add_to_list_at (string_v ''8080'') 3 ports) = Inl (not_found_exception 3)"
    "fst (remove_from_list (=) (boolean_v True) ports) = Inl (bad_cast_exception cast_message)"
    by (simp_all add: add_to_list_def add_to_list_at_def remove_from_list_def ports_def)
  from failure_leaves_state [of "bad_cast_exception cast_message" cast_message 0
      "signed_v 8080" ports 0 "(=)"] f(1)
  have 1: "snd (add_to_list (signed_v 8080) ports) = ports" by simp
  from failure_leaves_state [of "not_found_exception 3" cast_message 3
      "string_v ''8080''" ports 3 "(=)"] f(2)
  have 2: "snd (add_to_list_at (string_v ''8080'') 3 ports) = ports" by simp
  from failure_leaves_state [of "bad_cast_exception cast_message" cast_message 0
      "boolean_v True" ports 0 "(=)"] f(3)
  have 3: "snd (remove_from_list (=) (boolean_v True) ports) = ports" by simp
  from f 1 2 3 show ?thesis by simp
qed

text \<open>
  C9. For every kind \<open>K\<close> and every list of values of kind \<open>K\<close>, the empty one included,
  \<open>set_list<K>(list)\<close> returns without an error and leaves the option with type tag
  \<open>K\<close> and exactly the list as its values. At each element the loop reaches, the option
  holds the elements before it under type tag \<open>K\<close>, so the kind test of \<open>add_to_list\<close>
  passes and the element is appended.
\<close>

theorem set_list_never_fails:
  assumes "\<forall>v\<in>set list. get_enum_type v = K"
  shows "set_list K list opt = (Inr (), opt\<lparr>values_of := list, type_of := K\<rparr>) \<and>
         (\<forall>pre item post. list = pre @ item # post \<longrightarrow>
            snd (set_list_loop pre ((opt\<lparr>values_of := []\<rparr>)\<lparr>type_of := K\<rparr>)) =
              opt\<lparr>values_of := pre, type_of := K\<rparr> \<and>
            get_enum_type item = type_of (opt\<lparr>values_of := pre, type_of := K\<rparr>) \<and>
            add_to_list item (opt\<lparr>values_of := pre, type_of := K\<rparr>) =
              (Inr (), opt\<lparr>values_of := pre @ [item], type_of := K\<rparr>))"
proof -
  from assms have 1: "set_list K list opt = (Inr (), opt\<lparr>values_of := list, type_of := K\<rparr>)"
    by (simp add: set_list_def set_list_loop_typed)
  have 2: "snd (set_list_loop pre ((opt\<lparr>values_of := []\<rparr>)\<lparr>type_of := K\<rparr>)) =
              opt\<lparr>values_of := pre, type_of := K\<rparr> \<and>
            get_enum_type item = type_of (opt\<lparr>values_of := pre, type_of := K\<rparr>) \<and>
            add_to_list item (opt\<lparr>values_of := pre, type_of := K\<rparr>) =
              (Inr (), opt\<lparr>values_of := pre @ [item], type_of := K\<rparr>)"
    if "list = pre @ item # post" for pre item post
  proof -
    from that assms have p: "\<forall>v\<in>set pre. get_enum_type v = K" and i: "get_enum_type item = K"
      by simp_all
    from p have "set_list_loop pre ((opt\<lparr>values_of := []\<rparr>)\<lparr>type_of := K\<rparr>) =
        (Inr (), opt\<lparr>values_of := pre, type_of := K\<rparr>)"
      by (simp add: set_list_loop_typed)
    with i show ?thesis by (simp add: add_to_list_def)
  qed
  from 1 2 show ?thesis by blast
qed

theorem set_list_never_fails_witness:
  "list_all (\<lambda>v. get_enum_type v = boolean_e) [boolean_v True, boolean_v False] \<and>
   set_list boolean_e [boolean_v True, boolean_v False] ports =
     (Inr (), ports\<lparr>values_of := [boolean_v True, boolean_v False], type_of := boolean_e\<rparr>) \<and>
   set_list signed_e [] ports = (Inr (), ports\<lparr>values_of := [], type_of := signed_e\<rparr>)"
  using set_list_never_fails [of "[boolean_v True, boolean_v False]" boolean_e ports]
    set_list_never_fails [of "[]" signed_e ports]
  by simp

text \<open>
  C10. On an option that satisfies the invariant, once the kind of the value has passed
  the check against the type tag, the downcast of every stored cell to that kind gives
  the cell and not the null pointer; the loop of \<open>remove_from_list\<close> never dereferences
  a null pointer, from whatever position it runs, and the call returns normally.
\<close>

theorem remove_from_list_downcast_safe:
  assumes "homogeneous opt" and "get_enum_type v = type_of opt"
  shows "(\<forall>cell\<in>set (values_of opt). dynamic_cast (get_enum_type v) cell = Some cell) \<and>
         (\<forall>before. remove_from_list_loop feq v before (values_of opt) \<noteq> Inl null_dereference) \<and>
         fst (remove_from_list feq v opt) = Inr ()"
proof -
  from assms have k: "\<forall>cell\<in>set (values_of opt). get_enum_type cell = get_enum_type v"
    by (simp add: homogeneous_iff)
  then have 1: "\<forall>cell\<in>set (values_of opt). dynamic_cast (get_enum_type v) cell = Some cell"
    by (simp add: dynamic_cast_def)
  have 2: "remove_from_list_loop feq v before (values_of opt) \<noteq> Inl null_dereference" for before
    using remove_loop_total [OF k, of feq before] by auto
  from remove_loop_total [OF k, of feq "[]"] assms(2)
  have 3: "fst (remove_from_list feq v opt) = Inr ()"
    by (auto simp: remove_from_list_def)
  from 1 2 3 show ?thesis by blast
qed

theorem remove_from_list_downcast_safe_witness:
  "homogeneous repeated_ports \<and> get_enum_type (string_v ''443'') = type_of repeated_ports \<and>
   list_all (\<lambda>cell. dynamic_cast string_e cell = Some cell) (values_of repeated_ports) \<and>
   fst (remove_from_list (=) (string_v ''443'') repeated_ports) = Inr ()"
proof -
  have h: "homogeneous repeated_ports"
    "get_enum_type (string_v ''443'' :: (int, nat, real) option_holder) = type_of repeated_ports"
    by (simp_all add: repeated_ports_def homogeneous_def)
  from remove_from_list_downcast_safe [OF h, of "(=)"] h show ?thesis
    by (simp add: list_all_iff)
qed

end
